theory Spec2Isabelle
  imports Main "HOL-Library.Char_ord" "HOL-Library.List_Lexorder"
begin

section \<open>The scoped timer of gtsam/base/timing.h\<close>

text \<open>
  \<^verbatim>\<open>ticInternal(id, label)\<close> and \<^verbatim>\<open>tocInternal(id, label)\<close> are only declared in
  timing.h. The scoped timer does nothing with the timing tree but call them, so the
  model keeps the sequence of these calls, oldest first: a region's elapsed time is
  recorded once for each \<open>TocInternal\<close> in that sequence.
\<close>

datatype call = TicInternal nat string | TocInternal nat string

type_synonym calls = "call list"

text \<open>
  \<^verbatim>\<open>class AutoTicToc { size_t id_; const char *label_; bool isSet_; ... }\<close>.
  The identifier is only stored and passed on, so \<open>size_t\<close> is \<open>nat\<close> here. A name
  cannot end with an underscore in Isabelle: the members \<^verbatim>\<open>id_\<close>, \<^verbatim>\<open>label_\<close> and
  \<^verbatim>\<open>isSet_\<close> are \<open>m_id\<close>, \<open>m_label\<close> and \<open>m_isSet\<close>.
\<close>

record AutoTicToc =
  m_id :: nat
  m_label :: string
  m_isSet :: bool

text \<open>
  \<^verbatim>\<open>AutoTicToc(size_t id, const char* label) : id_(id), label_(label), isSet_(true)
      { ticInternal(id_, label_); }\<close>
\<close>

definition AutoTicToc_new :: "nat \<Rightarrow> string \<Rightarrow> calls \<Rightarrow> AutoTicToc \<times> calls" where
  "AutoTicToc_new i l cs =
     (\<lparr>m_id = i, m_label = l, m_isSet = True\<rparr>, cs @ [TicInternal i l])"

text \<open>\<^verbatim>\<open>void stop() { tocInternal(id_, label_); isSet_ = false; }\<close>\<close>

definition stop :: "AutoTicToc \<Rightarrow> calls \<Rightarrow> AutoTicToc \<times> calls" where
  "stop g cs = (g\<lparr>m_isSet := False\<rparr>, cs @ [TocInternal (m_id g) (m_label g)])"

text \<open>
  \<^verbatim>\<open>~AutoTicToc() { if(isSet_) stop(); }\<close>. The guard is gone afterwards, so only the
  calls are returned.
\<close>

definition AutoTicToc_delete :: "AutoTicToc \<Rightarrow> calls \<Rightarrow> calls" where
  "AutoTicToc_delete g cs = (if m_isSet g then snd (stop g cs) else cs)"

text \<open>
  Two uses of a guard: \<^verbatim>\<open>stop()\<close> followed by the destructor (\<^verbatim>\<open>gttoc_(label)\<close> is
  \<^verbatim>\<open>label##_obj.stop()\<close>, and the end of the scope destroys the guard), and \<^verbatim>\<open>stop()\<close>
  called twice on the same guard.
\<close>

definition stop_then_delete :: "AutoTicToc \<Rightarrow> calls \<Rightarrow> calls" where
  "stop_then_delete g cs = (case stop g cs of (g', cs') \<Rightarrow> AutoTicToc_delete g' cs')"

definition stop_twice :: "AutoTicToc \<Rightarrow> calls \<Rightarrow> AutoTicToc \<times> calls" where
  "stop_twice g cs = (case stop g cs of (g', cs') \<Rightarrow> stop g' cs')"

text \<open>How often the region \<open>(i, l)\<close> was closed in a sequence of calls.\<close>

definition tocs :: "nat \<Rightarrow> string \<Rightarrow> calls \<Rightarrow> nat" where
  "tocs i l cs = length (filter (\<lambda>c. c = TocInternal i l) cs)"

section \<open>The timing tree and its reset\<close>

text \<open>
  \<^verbatim>\<open>class TimingOutline\<close> with the members timing.h declares: \<^verbatim>\<open>myId_\<close>, \<^verbatim>\<open>t_\<close>,
  \<^verbatim>\<open>tWall_\<close>, \<^verbatim>\<open>t2_\<close>, \<^verbatim>\<open>tIt_\<close>, \<^verbatim>\<open>tMax_\<close>, \<^verbatim>\<open>tMin_\<close>, \<^verbatim>\<open>n_\<close> (the call count),
  \<^verbatim>\<open>myOrder_\<close>, \<^verbatim>\<open>lastChildOrder_\<close>, \<^verbatim>\<open>label_\<close> and \<^verbatim>\<open>children_\<close>, the map from a child's
  identifier to the child. A node owns its children, so a node is a tree; the member
  \<^verbatim>\<open>parent_\<close> refers back to the node that holds it and is the node's place in that tree.
  The clocks (\<^verbatim>\<open>timer_\<close>, \<^verbatim>\<open>tbbTimer_\<close>) are left out. \<^verbatim>\<open>t2_\<close> is a double, of any type
  \<open>'d\<close> with a zero here.
\<close>

datatype 'd TimingOutline =
  TimingOutline
    (o_myId: nat) (o_t: nat) (o_tWall: nat) (o_t2: 'd) (o_tIt: nat) (o_tMax: nat)
    (o_tMin: nat) (o_n: nat) (o_myOrder: nat) (o_lastChildOrder: nat) (o_label: string)
    (o_children: "(nat \<times> 'd TimingOutline) list")

text \<open>
  Modelled from the spec: the constructor \<^verbatim>\<open>TimingOutline(label, myId)\<close> is defined in
  timing.cpp, which is not among the sources. A node is created "with zero statistics"
  and, as a root, "empty": it has no children.
\<close>

definition TimingOutline_new :: "string \<Rightarrow> nat \<Rightarrow> 'd::zero TimingOutline" where
  "TimingOutline_new label myId = TimingOutline myId 0 0 0 0 0 0 0 0 0 label []"

text \<open>
  Modelled from the spec: \<^verbatim>\<open>getTicTocID(description)\<close> is defined in timing.cpp, which is
  not among the sources. The "first call for a given string allocates the next sequential
  id and stores the mapping; subsequent calls with the same string return the same id".
  The registry is the list of the mappings stored so far.
\<close>

definition getTicTocID :: "string \<Rightarrow> (string \<times> nat) list \<Rightarrow> nat \<times> (string \<times> nat) list" where
  "getTicTocID description registry =
     (case map_of registry description of
        Some i \<Rightarrow> (i, registry)
      | None \<Rightarrow> (length registry, registry @ [(description, length registry)]))"

text \<open>
  The globals: the registry of labels, \<^verbatim>\<open>timingRoot\<close>, which owns the tree, and
  \<^verbatim>\<open>timingCurrent\<close>, which refers to a node of it: the identifiers of the children to
  take from the root to reach that node, \<open>[]\<close> for the root itself.
\<close>

record 'd timing =
  registry :: "(string \<times> nat) list"
  timingRoot :: "'d TimingOutline"
  timingCurrent :: "nat list"

text \<open>The node a path refers to, and \<^verbatim>\<open>timingCurrent.lock()\<close>.\<close>

fun node_at :: "'d TimingOutline \<Rightarrow> nat list \<Rightarrow> 'd TimingOutline option" where
  "node_at node [] = Some node"
| "node_at node (i # path) =
     (case map_of (o_children node) i of
        None \<Rightarrow> None
      | Some child \<Rightarrow> node_at child path)"

definition lock :: "'d timing \<Rightarrow> 'd TimingOutline option" where
  "lock s = node_at (timingRoot s) (timingCurrent s)"

text \<open>The number of nodes of a tree.\<close>

fun nodes :: "'d TimingOutline \<Rightarrow> nat" where
  "nodes (TimingOutline i t tw t2 ti tmax tmin n ord lco l cs) =
     Suc (sum_list (map (\<lambda>c. nodes (snd c)) cs))"

text \<open>
  \<open>tictoc_reset\<close> is \<^verbatim>\<open>tictoc_reset_\<close> of the source:
  \<^verbatim>\<open>inline void tictoc_reset_() {
    internal::timingRoot.reset(new internal::TimingOutline("Total", internal::getTicTocID("Total")));
    internal::timingCurrent = internal::timingRoot; }\<close>
\<close>

definition tictoc_reset :: "'d::zero timing \<Rightarrow> 'd timing" where
  "tictoc_reset s =
     (case getTicTocID ''Total'' (registry s) of
        (i, registry') \<Rightarrow>
          \<lparr>registry = registry', timingRoot = TimingOutline_new ''Total'' i, timingCurrent = []\<rparr>)"

section \<open>The named-vector map of cpp/VectorConfig.cpp\<close>

subsection \<open>Vectors\<close>

text \<open>
  \<^verbatim>\<open>Vector\<close> is the vector of doubles of the linear-algebra library the file is built
  on. The functions below only move vectors around, ask for their size and combine them
  entry by entry, so the entries are of any type \<open>'a\<close> with the operations used; nothing
  is assumed of \<open>+\<close>, \<open>*\<close>, \<open>-\<close>, \<open>abs\<close> and \<open>\<le>\<close> on it. A default-constructed vector is
  \<open>[]\<close>, of size 0.
\<close>

type_synonym 'a Vector = "'a list"

text \<open>
  What a call writes to standard output, one item for each output statement of the
  source, with the values printed (the formatting of numbers is the library's):
  \<^verbatim>\<open>odprintf("VectorConfig %s\n", name)\<close>, \<^verbatim>\<open>odprintf("size: %d\n", values.size())\<close>,
  \<^verbatim>\<open>odprintf("%s:", j)\<close>, \<^verbatim>\<open>gtsam::print(v)\<close>, \<^verbatim>\<open>cout << "asked for key " << name\<close>,
  \<^verbatim>\<open>cout << "For key \"" << key << "\""\<close>, \<^verbatim>\<open>cout << "vj.size = " << vj.size()\<close> and
  \<^verbatim>\<open>cout << "dj.size = " << dj.size()\<close>.
\<close>

datatype 'a written =
    Odprintf_VectorConfig string
  | Odprintf_size nat
  | Odprintf_key string
  | Print_Vector "'a Vector"
  | Cout_asked_for_key string
  | Cout_For_key string
  | Cout_vj_size nat
  | Cout_dj_size nat

text \<open>
  The exceptions. \<open>InvalidKey\<close> is \<^verbatim>\<open>std::invalid_argument("VectorConfig::[] invalid key")\<close>,
  \<open>DimensionMismatch\<close> is \<^verbatim>\<open>std::invalid_argument("VectorConfig::+ mismatched dimensions")\<close>,
  and \<open>BadSize\<close> is the vector library's own refusal to add two vectors of different
  sizes or to read a vector out of range. None of the functions modelled here writes
  anything unless it throws, so a failure is the exception together with what was written
  before it was thrown.
\<close>

datatype condition = InvalidKey | DimensionMismatch | BadSize

type_synonym 'a failure = "condition \<times> 'a written list"

text \<open>\<^verbatim>\<open>v + w\<close> and \<^verbatim>\<open>v += w\<close> on vectors: entry by entry, for two vectors of one size.\<close>

definition vplus :: "'a::plus Vector \<Rightarrow> 'a Vector \<Rightarrow> 'a failure + 'a Vector" where
  "vplus v w = (if length v = length w then Inr (map2 (+) v w) else Inl (BadSize, []))"

text \<open>\<^verbatim>\<open>s * v\<close>: every entry multiplied by the scalar, the scalar on the left.\<close>

definition vscale :: "'a::times \<Rightarrow> 'a Vector \<Rightarrow> 'a Vector" where
  "vscale s v = map (\<lambda>x. s * x) v"

text \<open>
  Modelled from the spec: \<^verbatim>\<open>sub(v, i1, i2)\<close> is defined with the vector functions of the
  repository, which are not among the sources. It yields the slice of \<open>v\<close> from index
  \<open>i1\<close> up to, not including, \<open>i2\<close> ("consecutive slices"); a slice that leaves the vector
  is a read out of range.
\<close>

definition sub :: "'a Vector \<Rightarrow> nat \<Rightarrow> nat \<Rightarrow> 'a failure + 'a Vector" where
  "sub v i1 i2 =
     (if i1 \<le> i2 \<and> i2 \<le> length v then Inr (take (i2 - i1) (drop i1 v)) else Inl (BadSize, []))"

text \<open>
  Modelled from the spec: \<^verbatim>\<open>equal_with_abs_tol(v1, v2, tol)\<close> is defined with the vector
  functions of the repository, which are not among the sources. Two vectors are equal
  when they "match elementwise within tolerance".
\<close>

definition equal_with_abs_tol :: "'a::{minus,abs,ord} Vector \<Rightarrow> 'a Vector \<Rightarrow> 'a \<Rightarrow> bool" where
  "equal_with_abs_tol v1 v2 tol = list_all2 (\<lambda>x y. \<bar>x - y\<bar> \<le> tol) v1 v2"

subsection \<open>The map and its member functions\<close>

text \<open>
  The member \<^verbatim>\<open>values\<close> is declared in VectorConfig.h, which is not among the sources.
  The calls made on it are those of the standard library's \<^verbatim>\<open>std::map<std::string, Vector>\<close>:
  \<^verbatim>\<open>values.insert(std::make_pair(name,val))\<close>, \<^verbatim>\<open>values[j]\<close> yielding a reference that is
  assigned through, \<^verbatim>\<open>values.find(name)\<close> compared with \<^verbatim>\<open>values.end()\<close>,
  \<^verbatim>\<open>values.size()\<close>, and the iteration over pairs of key and value. Such a map holds one
  entry for each key and is iterated in ascending order of the keys, strings compared
  byte by byte. A \<open>VectorConfig\<close> is the sequence of entries as the iteration yields
  them, and \<open>invar\<close> says that the keys ascend strictly along it.
\<close>

type_synonym 'a VectorConfig = "(string \<times> 'a Vector) list"

definition invar :: "'a VectorConfig \<Rightarrow> bool" where
  "invar m = sorted_wrt (<) (map fst m)"

text \<open>
  The reading of "consecutive slices sized according to each key's stored vector length":
  the vector cut into pieces of the given sizes, from its start.
\<close>

fun slices :: "nat list \<Rightarrow> 'a list \<Rightarrow> 'a list list" where
  "slices [] d = []"
| "slices (n # ns) d = take n d # slices ns (drop n d)"

text \<open>\<^verbatim>\<open>values.find(name)\<close>: the entry of the key, or \<^verbatim>\<open>values.end()\<close>.\<close>

definition values_find :: "'a VectorConfig \<Rightarrow> string \<Rightarrow> 'a Vector option" where
  "values_find m name = map_of m name"

text \<open>
  \<^verbatim>\<open>values.insert(std::make_pair(name, val))\<close>: the pair is put at its place in key order
  when the map has no entry for the key; an existing entry is left as it is.
\<close>

definition values_insert :: "'a VectorConfig \<Rightarrow> string \<Rightarrow> 'a Vector \<Rightarrow> 'a VectorConfig" where
  "values_insert m name val =
     (case values_find m name of
        None \<Rightarrow> insort_key fst (name, val) m
      | Some _ \<Rightarrow> m)"

text \<open>
  \<^verbatim>\<open>values[j]\<close> on the map itself: a reference to the vector of the key, after putting an
  empty vector there when the map had no entry. The result is the vector referred to and
  the map; \<open>assign\<close> writes through that reference.
\<close>

definition values_at :: "'a VectorConfig \<Rightarrow> string \<Rightarrow> 'a Vector \<times> 'a VectorConfig" where
  "values_at m j =
     (case values_find m j of
        None \<Rightarrow> ([], insort_key fst (j, []) m)
      | Some vj \<Rightarrow> (vj, m))"

definition assign :: "'a VectorConfig \<Rightarrow> string \<Rightarrow> 'a Vector \<Rightarrow> 'a VectorConfig" where
  "assign m j v = map (\<lambda>(k, w). if k = j then (k, v) else (k, w)) m"

text \<open>
  \<^verbatim>\<open>FOREACH_PAIR(KEY, VAL, COL) body\<close>: the body runs on each entry in turn, on the state
  the entries before it left; an exception thrown by the body ends the loop.
\<close>

fun foreach_pair ::
  "(string \<Rightarrow> 'v \<Rightarrow> 's \<Rightarrow> 'e + 's) \<Rightarrow> (string \<times> 'v) list \<Rightarrow> 's \<Rightarrow> 'e + 's" where
  "foreach_pair body [] s = Inr s"
| "foreach_pair body ((key, val) # col) s =
     (case body key val s of
        Inl e \<Rightarrow> Inl e
      | Inr s' \<Rightarrow> foreach_pair body col s')"

text \<open>
  \<^verbatim>\<open>void check_size(const string& key, const Vector & vj, const Vector & dj)\<close>
\<close>

definition check_size :: "string \<Rightarrow> 'a Vector \<Rightarrow> 'a Vector \<Rightarrow> 'a failure + unit" where
  "check_size key vj dj =
     (if length dj \<noteq> length vj
      then Inl (DimensionMismatch,
                [Cout_For_key key, Cout_vj_size (length vj), Cout_dj_size (length dj)])
      else Inr ())"

text \<open>
  \<^verbatim>\<open>VectorConfig& VectorConfig::insert(const std::string& name, const Vector& val)\<close>.
  It returns the receiver, here the receiver after the call.
\<close>

definition insert_vc :: "'a VectorConfig \<Rightarrow> string \<Rightarrow> 'a Vector \<Rightarrow> 'a VectorConfig" where
  "insert_vc m name val = values_insert m name val"

text \<open>
  \<^verbatim>\<open>void VectorConfig::add(const std::string& j, const Vector& a)\<close>:
  \<^verbatim>\<open>Vector& vj = values[j]; if (vj.size()==0) vj = a; else vj += a;\<close>
\<close>

definition add :: "'a::plus VectorConfig \<Rightarrow> string \<Rightarrow> 'a Vector \<Rightarrow> 'a failure + 'a VectorConfig" where
  "add m j a =
     (case values_at m j of
        (vj, m') \<Rightarrow>
          if length vj = 0 then Inr (assign m' j a)
          else (case vplus vj a of
                  Inl e \<Rightarrow> Inl e
                | Inr s \<Rightarrow> Inr (assign m' j s)))"

text \<open>
  \<^verbatim>\<open>size_t VectorConfig::dim() const\<close>. The sizes of vectors held in memory do not add up
  to more than a \<open>size_t\<close> holds, so the sum is a \<open>nat\<close>.
\<close>

definition dim :: "'a VectorConfig \<Rightarrow> nat" where
  "dim m = fold (\<lambda>(key, v) result. result + length v) m 0"

text \<open>\<^verbatim>\<open>VectorConfig VectorConfig::scale(double s) const\<close>\<close>

definition scale :: "'a::times VectorConfig \<Rightarrow> 'a \<Rightarrow> 'a VectorConfig" where
  "scale m s = fold (\<lambda>(key, val) scaled. insert_vc scaled key (vscale s val)) m []"

text \<open>
  \<^verbatim>\<open>void VectorConfig::print(const std::string& name) const\<close>: the header line, the number
  of entries, then each key with its vector.
\<close>

definition print :: "'a VectorConfig \<Rightarrow> string \<Rightarrow> 'a written list" where
  "print m name =
     Odprintf_VectorConfig name # Odprintf_size (length m)
     # concat (map (\<lambda>(j, v). [Odprintf_key j, Print_Vector v]) m)"

text \<open>
  \<^verbatim>\<open>const Vector& VectorConfig::get(const std::string& name) const\<close>. It calls \<^verbatim>\<open>print()\<close>
  with no argument; the default of the parameter is in the header, and is taken to be
  the empty string.
\<close>

definition get :: "'a VectorConfig \<Rightarrow> string \<Rightarrow> 'a failure + 'a Vector" where
  "get m name =
     (case values_find m name of
        None \<Rightarrow> Inl (InvalidKey, print m [] @ [Cout_asked_for_key name])
      | Some v \<Rightarrow> Inr v)"

text \<open>
  Modelled from the spec: \<^verbatim>\<open>contains(name)\<close> is a member defined in VectorConfig.h, which
  is not among the sources. It says whether the map "has a same-named entry".
\<close>

definition contains :: "'a VectorConfig \<Rightarrow> string \<Rightarrow> bool" where
  "contains m name = (values_find m name \<noteq> None)"

text \<open>
  Modelled from the spec: \<^verbatim>\<open>size()\<close> is a member defined in VectorConfig.h, which is not
  among the sources. It is the "key-set size" of the map.
\<close>

definition size_vc :: "'a VectorConfig \<Rightarrow> nat" where
  "size_vc m = length m"

text \<open>
  Modelled from the spec: the subscript \<^verbatim>\<open>m[name]\<close> of a constant \<open>VectorConfig\<close> is a member
  defined in VectorConfig.h, which is not among the sources. The entry of another map is
  looked up "via get's contract"; the exception of \<open>get\<close> names the subscript:
  "VectorConfig::[] invalid key".
\<close>

definition subscript :: "'a VectorConfig \<Rightarrow> string \<Rightarrow> 'a failure + 'a Vector" where
  "subscript m name = get m name"

text \<open>
  \<^verbatim>\<open>VectorConfig VectorConfig::exmap(const VectorConfig& delta) const\<close>: the body of its
  loop on the entry \<open>(j, vj)\<close>, and the loop from an empty \<open>newConfig\<close>.
\<close>

definition exmap_body ::
  "'a::plus VectorConfig \<Rightarrow> string \<Rightarrow> 'a Vector \<Rightarrow> 'a VectorConfig \<Rightarrow> 'a failure + 'a VectorConfig" where
  "exmap_body delta j vj newConfig =
     (if contains delta j then
        (case subscript delta j of
           Inl e \<Rightarrow> Inl e
         | Inr dj \<Rightarrow>
             (case check_size j vj dj of
                Inl e \<Rightarrow> Inl e
              | Inr _ \<Rightarrow>
                  (case vplus vj dj of
                     Inl e \<Rightarrow> Inl e
                   | Inr s \<Rightarrow> Inr (insert_vc newConfig j s))))
      else Inr (insert_vc newConfig j vj))"

definition exmap :: "'a::plus VectorConfig \<Rightarrow> 'a VectorConfig \<Rightarrow> 'a failure + 'a VectorConfig" where
  "exmap m delta = foreach_pair (exmap_body delta) m []"

text \<open>
  \<^verbatim>\<open>VectorConfig VectorConfig::exmap(const Vector& delta) const\<close>: the state of its loop is
  the index \<open>i\<close> and \<open>newConfig\<close>.
\<close>

definition exmap_Vector_body ::
  "'a::plus Vector \<Rightarrow> string \<Rightarrow> 'a Vector \<Rightarrow> nat \<times> 'a VectorConfig
   \<Rightarrow> 'a failure + nat \<times> 'a VectorConfig" where
  "exmap_Vector_body delta j vj st =
     (case st of
        (i, newConfig) \<Rightarrow>
          (let mj = length vj in
           case sub delta i (i + mj) of
             Inl e \<Rightarrow> Inl e
           | Inr dj \<Rightarrow>
               (case vplus vj dj of
                  Inl e \<Rightarrow> Inl e
                | Inr s \<Rightarrow> Inr (i + mj, insert_vc newConfig j s))))"

definition exmap_Vector :: "'a::plus VectorConfig \<Rightarrow> 'a Vector \<Rightarrow> 'a failure + 'a VectorConfig" where
  "exmap_Vector m delta =
     (case foreach_pair (exmap_Vector_body delta) m (0, []) of
        Inl e \<Rightarrow> Inl e
      | Inr (i, newConfig) \<Rightarrow> Inr newConfig)"

text \<open>
  \<^verbatim>\<open>bool VectorConfig::equals(const VectorConfig& expected, double tol) const\<close>: its loop
  returns from the function at the first entry that differs.
\<close>

fun equals_loop ::
  "'a::{minus,abs,ord} VectorConfig \<Rightarrow> 'a VectorConfig \<Rightarrow> 'a \<Rightarrow> 'a failure + bool" where
  "equals_loop [] expected tol = Inr True"
| "equals_loop ((j, vActual) # rest) expected tol =
     (case subscript expected j of
        Inl e \<Rightarrow> Inl e
      | Inr vExpected \<Rightarrow>
          if \<not> equal_with_abs_tol vExpected vActual tol then Inr False
          else equals_loop rest expected tol)"

definition equals ::
  "'a::{minus,abs,ord} VectorConfig \<Rightarrow> 'a VectorConfig \<Rightarrow> 'a \<Rightarrow> 'a failure + bool" where
  "equals m expected tol =
     (if length m \<noteq> size_vc expected then Inr False else equals_loop m expected tol)"

section \<open>The scoped timer: construction, stop and destruction\<close>

text \<open>
  C1 as stated does not hold of the code: the flag \<^verbatim>\<open>isSet_\<close> is tested by the destructor
  only, and \<^verbatim>\<open>stop()\<close> calls \<^verbatim>\<open>tocInternal\<close> whenever it is called. A guard for region 7,
  "step1", created on an empty sequence of calls and stopped twice, has closed its region
  twice, not once.
\<close>

theorem AutoTicToc_stop_twice_counterexample:
  "tocs 7 ''step1''
     (snd (stop_twice (fst (AutoTicToc_new 7 ''step1'' [])) (snd (AutoTicToc_new 7 ''step1'' []))))
   = 2"
  by (simp add: AutoTicToc_new_def stop_def stop_twice_def tocs_def)

text \<open>
  C1, amended to what the code does. Construction performs tic and yields a guard that is
  set. Destruction of a guard that was never stopped performs toc once. One \<^verbatim>\<open>stop()\<close>
  followed by destruction performs toc once: the destructor adds nothing. Every call of
  \<^verbatim>\<open>stop()\<close> performs a toc, so two calls of \<^verbatim>\<open>stop()\<close> perform it twice. Here \<open>cs\<close> are the
  calls made before the guard is constructed, and \<open>ds\<close> those made up to the point where
  it is stopped or destroyed.
\<close>

theorem AutoTicToc_toc_once_unless_stopped_twice:
  "snd (AutoTicToc_new i l cs) = cs @ [TicInternal i l]
   \<and> m_isSet (fst (AutoTicToc_new i l cs))
   \<and> AutoTicToc_delete (fst (AutoTicToc_new i l cs)) ds = ds @ [TocInternal i l]
   \<and> stop_then_delete (fst (AutoTicToc_new i l cs)) ds = ds @ [TocInternal i l]
   \<and> snd (stop_twice (fst (AutoTicToc_new i l cs)) ds)
       = ds @ [TocInternal i l, TocInternal i l]"
  by (simp add: AutoTicToc_new_def stop_def AutoTicToc_delete_def stop_then_delete_def
      stop_twice_def)

section \<open>The timing tree: reset\<close>

text \<open>
  C9: whatever the registry, the tree and the cursor were, after \<^verbatim>\<open>tictoc_reset_()\<close> the
  root is a newly constructed node labelled "Total", with the identifier the registry
  gives that label; it has no children, so the tree has one node; its call count is zero;
  and the cursor refers to that root.
\<close>

theorem tictoc_reset_fresh_root:
  "timingRoot (tictoc_reset s)
     = TimingOutline_new ''Total'' (fst (getTicTocID ''Total'' (registry s)))
   \<and> o_label (timingRoot (tictoc_reset s)) = ''Total''
   \<and> o_children (timingRoot (tictoc_reset s)) = []
   \<and> nodes (timingRoot (tictoc_reset s)) = 1
   \<and> o_n (timingRoot (tictoc_reset s)) = 0
   \<and> timingCurrent (tictoc_reset s) = []
   \<and> lock (tictoc_reset s) = Some (timingRoot (tictoc_reset s))"
  by (simp add: tictoc_reset_def TimingOutline_new_def lock_def split: prod.split)

section \<open>The named-vector map: lookups and updates of the underlying map\<close>

lemma values_find_None_iff: "values_find m k = None \<longleftrightarrow> k \<notin> fst ` set m"
  by (simp add: values_find_def map_of_eq_None_iff)

lemma map_of_insort_key:
  "map_of m k = None \<Longrightarrow>
   map_of (insort_key fst (k, v) m) k' = (if k' = k then Some v else map_of m k')"
  by (induction m) (auto split: if_splits)

lemma values_find_insort_key:
  "values_find m k = None \<Longrightarrow>
   values_find (insort_key fst (k, v) m) k' = (if k' = k then Some v else values_find m k')"
  by (simp add: values_find_def map_of_insort_key)

lemma values_find_values_insert:
  "values_find (values_insert m k v) k' =
     (if k' = k \<and> values_find m k = None then Some v else values_find m k')"
  by (auto simp: values_insert_def values_find_insort_key split: option.splits)

lemma assign_simps:
  "assign [] j a = []"
  "assign ((k, w) # m) j a = (if k = j then (k, a) else (k, w)) # assign m j a"
  by (simp_all add: assign_def)




text \<open>An entry whose key is beyond all keys of the map is put at the end.\<close>

lemma insort_key_last:
  "\<forall>x \<in> set acc. fst x < k \<Longrightarrow> insort_key fst (k, v) acc = acc @ [(k, v)]"
  by (induction acc) auto

lemma insert_vc_last:
  "\<forall>x \<in> set acc. fst x < k \<Longrightarrow> insert_vc acc k v = acc @ [(k, v)]"
  by (auto simp: insert_vc_def values_insert_def insort_key_last values_find_None_iff
      split: option.splits)

lemma sorted_keys_step:
  assumes "sorted_wrt (<) (map fst acc @ map fst ((k, v) # m))"
  shows "\<forall>x \<in> set acc. fst x < k"
    and "sorted_wrt (<) (map fst (acc @ [(k, w)]) @ map fst m)"
  using assms by (auto simp: sorted_wrt_append)

section \<open>The named-vector map: insert and get\<close>

text \<open>
  C2 as stated does not hold of the code: \<^verbatim>\<open>std::map::insert\<close> stores nothing when the key
  has an entry. After \<^verbatim>\<open>insert("x", [1])\<close> and \<^verbatim>\<open>insert("x", [2])\<close> on an empty map,
  \<^verbatim>\<open>get("x")\<close> is \<open>[1]\<close>, not \<open>[2]\<close>.
\<close>

theorem insert_existing_counterexample:
  "get (insert_vc (insert_vc [] ''x'' [1::int]) ''x'' [2]) ''x'' = Inr [1]
   \<and> get (insert_vc (insert_vc [] ''x'' [1::int]) ''x'' [2]) ''x'' \<noteq> Inr [2]"
  by (simp add: get_def insert_vc_def values_insert_def values_find_def)

text \<open>
  C2, amended to what the code does: \<^verbatim>\<open>insert(k, v2)\<close> on a map that holds \<open>(k, v1)\<close> leaves
  the map as it is, so a subsequent \<^verbatim>\<open>get(k)\<close> returns \<open>v1\<close>; what \<open>insert\<close> returns is the
  receiver.
\<close>

theorem insert_keeps_existing:
  "values_find m k = Some v1 \<Longrightarrow> insert_vc m k v2 = m \<and> get (insert_vc m k v2) k = Inr v1"
  by (simp add: insert_vc_def values_insert_def get_def)

text \<open>C2, amended, on the map that holds \<open>[1]\<close> under "x".\<close>

theorem insert_keeps_existing_witness:
  "values_find [(''x'', [1::int])] ''x'' = Some [1]
   \<and> insert_vc [(''x'', [1::int])] ''x'' [2] = [(''x'', [1])]
   \<and> get (insert_vc [(''x'', [1::int])] ''x'' [2]) ''x'' = Inr [1]"
proof -
  have h: "values_find [(''x'', [1::int])] ''x'' = Some [1]"
    by (simp add: values_find_def)
  show ?thesis
    using h insert_keeps_existing [OF h, of "[2]"] by blast
qed

text \<open>
  C3 as stated does not hold of the code: a key inserted with \<open>v\<close> is found with \<open>v\<close> only
  when the map had no entry for it, since \<open>insert\<close> stores nothing on a key that has one.
  On the map that holds \<open>[0]\<close> under "a" and \<open>[3]\<close> under "x", after \<^verbatim>\<open>insert("x", [4])\<close>
  the vector that \<^verbatim>\<open>get("x")\<close> returns is \<open>[3]\<close>, not \<open>[4]\<close>.
\<close>

theorem get_after_insert_counterexample:
  "get (insert_vc [(''a'', [0]), (''x'', [3::int])] ''x'' [4]) ''x'' = Inr [3]
   \<and> get (insert_vc [(''a'', [0]), (''x'', [3::int])] ''x'' [4]) ''x'' \<noteq> Inr [4]"
  by (simp add: get_def insert_vc_def values_insert_def values_find_def)

text \<open>
  C3, amended to what the code does. After \<^verbatim>\<open>insert(k, v)\<close>, \<open>get\<close> finds under \<open>k\<close> the
  vector \<open>v\<close>, unchanged, when the map had no entry for \<open>k\<close>, and the vector the map had
  there before when it had one. Any entry \<open>(k, v)\<close> the map holds is found by \<open>get\<close> with
  \<open>v\<close> unchanged. On a key without an entry \<open>get\<close> fails with InvalidKey, and what was
  written before the exception is the dump of the map by \<open>print\<close>, followed by the key
  asked for.
\<close>

theorem get_inserted_or_InvalidKey:
  "get (insert_vc m k v) k = Inr (case values_find m k of None \<Rightarrow> v | Some v1 \<Rightarrow> v1)
   \<and> (values_find m k = Some v \<longrightarrow> get m k = Inr v)
   \<and> (values_find m k = None \<longrightarrow>
        get m k = Inl (InvalidKey, print m [] @ [Cout_asked_for_key k]))"
  by (simp add: get_def insert_vc_def values_find_values_insert split: option.splits)

text \<open>
  C3, amended, on the map that holds \<open>[1]\<close> under "x": \<open>[2]\<close> inserted under "y" and under
  "x", and the map asked for "x" and for "y".
\<close>

theorem get_inserted_or_InvalidKey_witness:
  "values_find [(''x'', [1::int])] ''y'' = None
   \<and> get (insert_vc [(''x'', [1::int])] ''y'' [2]) ''y'' = Inr [2]
   \<and> values_find [(''x'', [1::int])] ''x'' = Some [1]
   \<and> get (insert_vc [(''x'', [1::int])] ''x'' [2]) ''x'' = Inr [1]
   \<and> get [(''x'', [1::int])] ''x'' = Inr [1]
   \<and> get [(''x'', [1::int])] ''y''
     = Inl (InvalidKey, [Odprintf_VectorConfig [], Odprintf_size 1, Odprintf_key ''x'',
                         Print_Vector [1], Cout_asked_for_key ''y''])"
proof -
  let ?m = "[(''x'', [1::int])]"
  have h1: "values_find ?m ''y'' = None"
    by (simp add: values_find_def)
  have h2: "values_find ?m ''x'' = Some [1]"
    by (simp add: values_find_def)
  from get_inserted_or_InvalidKey [of ?m "''y''" "[2]"]
  have "get (insert_vc ?m ''y'' [2]) ''y''
      = Inr (case values_find ?m ''y'' of None \<Rightarrow> [2] | Some v1 \<Rightarrow> v1)"
    and "values_find ?m ''y'' = None \<longrightarrow>
      get ?m ''y'' = Inl (InvalidKey, print ?m [] @ [Cout_asked_for_key ''y''])"
    by blast+
  with h1 have r1: "get (insert_vc ?m ''y'' [2]) ''y'' = Inr [2]"
    and r2: "get ?m ''y''
      = Inl (InvalidKey, [Odprintf_VectorConfig [], Odprintf_size 1, Odprintf_key ''x'',
                          Print_Vector [1], Cout_asked_for_key ''y''])"
    by (simp_all add: print_def)
  from get_inserted_or_InvalidKey [of ?m "''x''" "[2]"]
  have "get (insert_vc ?m ''x'' [2]) ''x''
      = Inr (case values_find ?m ''x'' of None \<Rightarrow> [2] | Some v1 \<Rightarrow> v1)"
    by blast
  with h2 have r3: "get (insert_vc ?m ''x'' [2]) ''x'' = Inr [1]"
    by simp
  from h2 get_inserted_or_InvalidKey [of ?m "''x''" "[1]"]
  have r4: "get ?m ''x'' = Inr [1]"
    by blast
  show ?thesis using h1 h2 r1 r2 r3 r4 by blast
qed

section \<open>The named-vector map: add\<close>








section \<open>The named-vector map: the keys ascend\<close>

text \<open>
  The empty map has ascending keys, and every member function that yields a map yields
  one with ascending keys.
\<close>

lemma invar_Nil: "invar []"
  by (simp add: invar_def)

lemma invar_insort_key:
  "invar m \<Longrightarrow> values_find m k = None \<Longrightarrow> invar (insort_key fst (k, v) m)"
  by (auto simp: invar_def strict_sorted_iff sorted_insort_key distinct_insort_key
      values_find_None_iff)

lemma invar_insert_vc: "invar m \<Longrightarrow> invar (insert_vc m k v)"
  by (auto simp: insert_vc_def values_insert_def invar_insort_key split: option.splits)

lemma invar_assign: "invar (assign m j v) = invar m"
proof -
  have "map fst (assign m j v) = map fst m"
    by (induction m) (auto simp: assign_simps)
  then show ?thesis by (simp add: invar_def)
qed

lemma invar_add: "invar m \<Longrightarrow> add m j a = Inr m' \<Longrightarrow> invar m'"
  by (auto simp: add_def values_at_def invar_assign invar_insort_key
      split: option.splits if_splits sum.splits)

lemma invar_scale: "invar (scale m s)"
proof -
  have "invar acc \<Longrightarrow>
        invar (fold (\<lambda>(key, val) scaled. insert_vc scaled key (vscale s val)) m acc)" for acc
    by (induction m arbitrary: acc) (auto simp: invar_insert_vc)
  then show ?thesis by (simp add: scale_def invar_Nil)
qed

lemma foreach_pair_preserves:
  "(\<And>k v s s'. P s \<Longrightarrow> body k v s = Inr s' \<Longrightarrow> P s') \<Longrightarrow> P s \<Longrightarrow>
   foreach_pair body m s = Inr s' \<Longrightarrow> P s'"
proof (induction m arbitrary: s)
  case Nil
  then show ?case by simp
next
  case (Cons e m)
  obtain k v where e: "e = (k, v)" by (cases e)
  from Cons.prems(3) e obtain s1
    where s1: "body k v s = Inr s1" "foreach_pair body m s1 = Inr s'"
    by (auto split: sum.splits)
  from Cons.prems(1) [OF Cons.prems(2) s1(1)] have "P s1" .
  from Cons.IH [OF Cons.prems(1) this s1(2)] show ?case by simp
qed

lemma invar_exmap: "exmap m delta = Inr m' \<Longrightarrow> invar m'"
proof -
  have step: "invar s \<Longrightarrow> exmap_body delta k v s = Inr s' \<Longrightarrow> invar s'" for k v s s'
    by (auto simp: exmap_body_def invar_insert_vc split: if_splits sum.splits)
  show "exmap m delta = Inr m' \<Longrightarrow> invar m'"
    unfolding exmap_def
    by (rule foreach_pair_preserves [where P = invar and body = "exmap_body delta"])
       (auto simp: invar_Nil step)
qed

lemma invar_exmap_Vector: "exmap_Vector m delta = Inr m' \<Longrightarrow> invar m'"
proof -
  have step: "invar (snd s) \<Longrightarrow> exmap_Vector_body delta k v s = Inr s' \<Longrightarrow> invar (snd s')"
    for k v s s'
    by (cases s) (auto simp: exmap_Vector_body_def Let_def invar_insert_vc split: sum.splits)
  assume "exmap_Vector m delta = Inr m'"
  then obtain i where "foreach_pair (exmap_Vector_body delta) m (0, []) = Inr (i, m')"
    by (auto simp: exmap_Vector_def split: sum.splits)
  from foreach_pair_preserves [where P = "\<lambda>s. invar (snd s)", OF step _ this]
  show ?thesis by (simp add: invar_Nil)
qed

section \<open>The named-vector map: scale\<close>

lemma scale_loop:
  "sorted_wrt (<) (map fst acc @ map fst m) \<Longrightarrow>
   fold (\<lambda>(key, val) scaled. insert_vc scaled key (f val)) m acc
   = acc @ map (\<lambda>(k, v). (k, f v)) m"
proof (induction m arbitrary: acc)
  case Nil
  then show ?case by simp
next
  case (Cons e m)
  obtain k v where e: "e = (k, v)" by (cases e)
  from Cons.prems e have lt: "\<forall>x \<in> set acc. fst x < k"
    and srt: "sorted_wrt (<) (map fst (acc @ [(k, f v)]) @ map fst m)"
    using sorted_keys_step [of acc k v m] by simp_all
  show ?case
    using Cons.IH [OF srt] by (simp add: e insert_vc_last [OF lt])
qed

text \<open>
  C5: the map that \<open>scale\<close> returns has the entries of the receiver, key by key, each
  vector with every entry multiplied by \<open>s\<close> (the product is \<open>s * x\<close>, as the source
  writes it); so the keys are the same, and where \<open>get\<close> finds \<open>v\<close> in the receiver it finds
  \<open>v\<close> scaled in the result. \<open>scale\<close> is a function of the receiver, which it leaves alone.
\<close>

theorem scale_elementwise:
  "invar m \<Longrightarrow>
   scale m s = map (\<lambda>(k, v). (k, vscale s v)) m
   \<and> map fst (scale m s) = map fst m
   \<and> (get m k = Inr v \<longrightarrow> get (scale m s) k = Inr (vscale s v))"
proof -
  assume "invar m"
  then have eq: "scale m s = map (\<lambda>(k, v). (k, vscale s v)) m"
    using scale_loop [of "[]" m "vscale s"] by (simp add: invar_def scale_def)
  have keys: "map fst (map (\<lambda>(k, v). (k, vscale s v)) m) = map fst m"
    by (induction m) auto
  have look: "map_of (map (\<lambda>(k, v). (k, vscale s v)) m) k = map_option (vscale s) (map_of m k)"
    by (induction m) auto
  show ?thesis
    by (auto simp: eq keys get_def values_find_def look split: option.splits)
qed

text \<open>C5 on a map of two entries, scaled by 3.\<close>

theorem scale_elementwise_witness:
  "invar [(''a'', [1, 2]), (''x'', [5::int])]
   \<and> scale [(''a'', [1, 2]), (''x'', [5::int])] 3 = [(''a'', [3, 6]), (''x'', [15])]
   \<and> get [(''a'', [1, 2]), (''x'', [5::int])] ''a'' = Inr [1, 2]
   \<and> get (scale [(''a'', [1, 2]), (''x'', [5::int])] 3) ''a'' = Inr [3, 6]"
proof -
  let ?m = "[(''a'', [1, 2]), (''x'', [5::int])]"
  have h1: "invar ?m"
    by (simp add: invar_def)
  have h2: "get ?m ''a'' = Inr [1, 2]"
    by (simp add: get_def values_find_def)
  from h2 scale_elementwise [OF h1, of 3 "''a''" "[1, 2]"]
  have r1: "scale ?m 3 = map (\<lambda>(k, v). (k, vscale 3 v)) ?m"
    and r2: "get (scale ?m 3) ''a'' = Inr (vscale 3 [1, 2])"
    by blast+
  have "scale ?m 3 = [(''a'', [3, 6]), (''x'', [15])]"
    unfolding r1 by (simp add: vscale_def)
  moreover have "get (scale ?m 3) ''a'' = Inr [3, 6]"
    unfolding r2 by (simp add: vscale_def)
  ultimately show ?thesis using h1 h2 by blast
qed

section \<open>The named-vector map: exmap with a map of deltas\<close>

lemma exmap_body_ok:
  "(\<And>dj. values_find delta j = Some dj \<Longrightarrow> length dj = length vj) \<Longrightarrow>
   exmap_body delta j vj nc =
     Inr (insert_vc nc j
            (case values_find delta j of None \<Rightarrow> vj | Some dj \<Rightarrow> map2 (+) vj dj))"
  by (auto simp: exmap_body_def contains_def subscript_def get_def check_size_def vplus_def
      split: option.splits)

lemma exmap_body_mismatch:
  "values_find delta j = Some dj \<Longrightarrow> length dj \<noteq> length vj \<Longrightarrow>
   exmap_body delta j vj nc =
     Inl (DimensionMismatch,
          [Cout_For_key j, Cout_vj_size (length vj), Cout_dj_size (length dj)])"
  by (simp add: exmap_body_def contains_def subscript_def get_def check_size_def)

lemma exmap_loop_ok:
  "sorted_wrt (<) (map fst acc @ map fst m) \<Longrightarrow>
   \<forall>(j, vj) \<in> set m. \<forall>dj. values_find delta j = Some dj \<longrightarrow> length dj = length vj \<Longrightarrow>
   foreach_pair (exmap_body delta) m acc
   = Inr (acc @ map (\<lambda>(j, vj). (j, case values_find delta j of None \<Rightarrow> vj
                                    | Some dj \<Rightarrow> map2 (+) vj dj)) m)"
proof (induction m arbitrary: acc)
  case Nil
  then show ?case by simp
next
  case (Cons e m)
  obtain k v where e: "e = (k, v)" by (cases e)
  let ?w = "case values_find delta k of None \<Rightarrow> v | Some dj \<Rightarrow> map2 (+) v dj"
  from Cons.prems(1) e have lt: "\<forall>x \<in> set acc. fst x < k"
    and srt: "sorted_wrt (<) (map fst (acc @ [(k, ?w)]) @ map fst m)"
    using sorted_keys_step [of acc k v m] by simp_all
  from Cons.prems(2) e
  have ok: "\<And>dj. values_find delta k = Some dj \<Longrightarrow> length dj = length v"
    and rest: "\<forall>(j, vj) \<in> set m. \<forall>dj. values_find delta j = Some dj \<longrightarrow> length dj = length vj"
    by auto
  show ?case
    using Cons.IH [OF srt rest] by (simp add: e exmap_body_ok [OF ok] insert_vc_last [OF lt])
qed

lemma exmap_loop_mismatch:
  "(j, vj) \<in> set m \<Longrightarrow> values_find delta j = Some dj \<Longrightarrow> length dj \<noteq> length vj \<Longrightarrow>
   \<exists>j' vj' dj'. (j', vj') \<in> set m \<and> values_find delta j' = Some dj'
     \<and> length dj' \<noteq> length vj'
     \<and> (\<forall>acc. foreach_pair (exmap_body delta) m acc
          = Inl (DimensionMismatch,
                 [Cout_For_key j', Cout_vj_size (length vj'), Cout_dj_size (length dj')]))"
proof (induction m)
  case Nil
  then show ?case by simp
next
  case (Cons e m)
  obtain k v where e: "e = (k, v)" by (cases e)
  show ?case
  proof (cases "\<exists>d. values_find delta k = Some d \<and> length d \<noteq> length v")
    case True
    then obtain d where d: "values_find delta k = Some d" "length d \<noteq> length v" by blast
    show ?thesis
      using d by (intro exI [of _ k] exI [of _ v] exI [of _ d]) (simp add: e exmap_body_mismatch)
  next
    case False
    then have ok: "\<And>dj. values_find delta k = Some dj \<Longrightarrow> length dj = length v" by blast
    from False Cons.prems e have "(j, vj) \<in> set m" by auto
    from Cons.IH [OF this Cons.prems(2,3)] obtain j' vj' dj' where
      "(j', vj') \<in> set m" "values_find delta j' = Some dj'" "length dj' \<noteq> length vj'"
      "\<forall>acc. foreach_pair (exmap_body delta) m acc
       = Inl (DimensionMismatch,
              [Cout_For_key j', Cout_vj_size (length vj'), Cout_dj_size (length dj')])"
      by blast
    then show ?thesis
      by (intro exI [of _ j'] exI [of _ vj'] exI [of _ dj']) (simp add: e exmap_body_ok [OF ok])
  qed
qed

text \<open>
  C6. When every vector of \<open>m\<close> whose key is in \<open>delta\<close> has the size of its delta,
  \<open>exmap\<close> returns the entries of \<open>m\<close>, key by key: the vector plus its delta entry by
  entry where \<open>delta\<close> has the key, the vector unchanged where it has not. When a vector
  of \<open>m\<close> and its delta differ in size, \<open>exmap\<close> fails with DimensionMismatch, having
  written the key and the two sizes of such a pair.
\<close>

theorem exmap_adds_listed_keys:
  "invar m \<Longrightarrow>
   ((\<forall>(j, vj) \<in> set m. \<forall>dj. values_find delta j = Some dj \<longrightarrow> length dj = length vj) \<longrightarrow>
      exmap m delta
      = Inr (map (\<lambda>(j, vj). (j, case values_find delta j of None \<Rightarrow> vj
                                 | Some dj \<Rightarrow> map2 (+) vj dj)) m))
   \<and> ((j, vj) \<in> set m \<and> values_find delta j = Some dj \<and> length dj \<noteq> length vj \<longrightarrow>
      (\<exists>j' vj' dj'. (j', vj') \<in> set m \<and> values_find delta j' = Some dj'
         \<and> length dj' \<noteq> length vj'
         \<and> exmap m delta
           = Inl (DimensionMismatch,
                  [Cout_For_key j', Cout_vj_size (length vj'), Cout_dj_size (length dj')])))"
proof (intro conjI impI)
  assume "invar m"
    and "\<forall>(j, vj) \<in> set m. \<forall>dj. values_find delta j = Some dj \<longrightarrow> length dj = length vj"
  then show "exmap m delta
      = Inr (map (\<lambda>(j, vj). (j, case values_find delta j of None \<Rightarrow> vj
                                 | Some dj \<Rightarrow> map2 (+) vj dj)) m)"
    using exmap_loop_ok [of "[]" m delta] by (simp add: invar_def exmap_def)
next
  assume "(j, vj) \<in> set m \<and> values_find delta j = Some dj \<and> length dj \<noteq> length vj"
  then show "\<exists>j' vj' dj'. (j', vj') \<in> set m \<and> values_find delta j' = Some dj'
         \<and> length dj' \<noteq> length vj'
         \<and> exmap m delta
           = Inl (DimensionMismatch,
                  [Cout_For_key j', Cout_vj_size (length vj'), Cout_dj_size (length dj')])"
    using exmap_loop_mismatch [of j vj m delta dj] unfolding exmap_def by blast
qed

text \<open>
  C6 on a map with the keys "a" and "x": a delta for "x" alone, of the right size and of
  a wrong one.
\<close>

theorem exmap_adds_listed_keys_witness:
  "invar [(''a'', [1, 2]), (''x'', [5::int])]
   \<and> values_find [(''x'', [10::int])] ''a'' = None
   \<and> values_find [(''x'', [10::int])] ''x'' = Some [10]
   \<and> length [10::int] = length [5::int]
   \<and> exmap [(''a'', [1, 2]), (''x'', [5::int])] [(''x'', [10])]
     = Inr [(''a'', [1, 2]), (''x'', [15])]
   \<and> (''x'', [5::int]) \<in> set [(''a'', [1, 2]), (''x'', [5::int])]
   \<and> values_find [(''x'', [10, 20::int])] ''x'' = Some [10, 20]
   \<and> length [10, 20::int] \<noteq> length [5::int]
   \<and> exmap [(''a'', [1, 2]), (''x'', [5::int])] [(''x'', [10, 20])]
     = Inl (DimensionMismatch, [Cout_For_key ''x'', Cout_vj_size 1, Cout_dj_size 2])"
proof -
  let ?m = "[(''a'', [1, 2]), (''x'', [5::int])]"
  have h1: "invar ?m"
    by (simp add: invar_def)
  have h2: "\<forall>(j, vj) \<in> set ?m.
        \<forall>dj. values_find [(''x'', [10::int])] j = Some dj \<longrightarrow> length dj = length vj"
    by (simp add: values_find_def)
  have h3: "(''x'', [5::int]) \<in> set ?m
     \<and> values_find [(''x'', [10, 20::int])] ''x'' = Some [10, 20]
     \<and> length [10, 20::int] \<noteq> length [5::int]"
    by (simp add: values_find_def)
  have r1: "exmap ?m [(''x'', [10])] = Inr [(''a'', [1, 2]), (''x'', [15])]"
    using h2 exmap_adds_listed_keys [OF h1, of "[(''x'', [10])]" "''x''" "[5]" "[10]"]
    by (simp add: values_find_def)
  have r2: "exmap ?m [(''x'', [10, 20])]
     = Inl (DimensionMismatch, [Cout_For_key ''x'', Cout_vj_size 1, Cout_dj_size 2])"
    using h3 exmap_adds_listed_keys [OF h1, of "[(''x'', [10, 20])]" "''x''" "[5]" "[10, 20]"]
    by (auto simp: values_find_def split: if_splits)
  have h2': "values_find [(''x'', [10::int])] ''a'' = None
     \<and> values_find [(''x'', [10::int])] ''x'' = Some [10]
     \<and> length [10::int] = length [5::int]"
    by (simp add: values_find_def)
  show ?thesis using h1 h2' h3 r1 r2 by blast
qed

section \<open>The named-vector map: exmap with a flat vector\<close>

lemma dim_fold:
  "fold (\<lambda>(key, v) result. result + length v) m a
   = a + sum_list (map (\<lambda>(j, vj). length vj) m)"
  by (induction m arbitrary: a) auto

lemma dim_sum: "dim m = sum_list (map (\<lambda>(j, vj). length vj) m)"
  by (simp add: dim_def dim_fold)

lemma slices_concat: "sum_list ns = length d \<Longrightarrow> concat (slices ns d) = d"
  by (induction ns arbitrary: d) auto

lemma slices_lengths: "sum_list ns \<le> length d \<Longrightarrow> map length (slices ns d) = ns"
  by (induction ns arbitrary: d) auto

lemma exmap_Vector_body_ok:
  "i + length vj \<le> length delta \<Longrightarrow>
   exmap_Vector_body delta j vj (i, nc)
   = Inr (i + length vj, insert_vc nc j (map2 (+) vj (take (length vj) (drop i delta))))"
  by (simp add: exmap_Vector_body_def sub_def vplus_def Let_def)

lemma exmap_Vector_loop:
  "sorted_wrt (<) (map fst acc @ map fst m) \<Longrightarrow>
   i + sum_list (map (\<lambda>(j, vj). length vj) m) \<le> length delta \<Longrightarrow>
   foreach_pair (exmap_Vector_body delta) m (i, acc)
   = Inr (i + sum_list (map (\<lambda>(j, vj). length vj) m),
          acc @ map2 (\<lambda>(j, vj) dj. (j, map2 (+) vj dj)) m
                  (slices (map (\<lambda>(j, vj). length vj) m) (drop i delta)))"
proof (induction m arbitrary: acc i)
  case Nil
  then show ?case by simp
next
  case (Cons e m)
  obtain k v where e: "e = (k, v)" by (cases e)
  let ?w = "map2 (+) v (take (length v) (drop i delta))"
  from Cons.prems(1) e have lt: "\<forall>x \<in> set acc. fst x < k"
    and srt: "sorted_wrt (<) (map fst (acc @ [(k, ?w)]) @ map fst m)"
    using sorted_keys_step [of acc k v m] by simp_all
  from Cons.prems(2) e have here: "i + length v \<le> length delta"
    and rest: "(i + length v) + sum_list (map (\<lambda>(j, vj). length vj) m) \<le> length delta"
    by simp_all
  show ?case
    using Cons.IH [OF srt rest]
    by (simp add: e exmap_Vector_body_ok [OF here] insert_vc_last [OF lt] add.commute add.assoc)
qed

text \<open>
  C7 as stated does not hold of the code: the loop takes the entries as the map iterates
  over them, in ascending order of the keys, whatever the order they were inserted in.
  With "b" inserted first, holding one number, and "a" second, holding two, the flat
  vector \<open>[100, 200, 300]\<close> gives its first two numbers to "a" and the third to "b"; in
  the order of insertion "b" would have got \<open>[100]\<close> and "a" \<open>[200, 300]\<close>.
\<close>

theorem exmap_Vector_insertion_order_counterexample:
  "exmap_Vector (insert_vc (insert_vc [] ''b'' [1::int]) ''a'' [10, 20]) [100, 200, 300]
   = Inr [(''a'', [110, 220]), (''b'', [301])]
   \<and> exmap_Vector (insert_vc (insert_vc [] ''b'' [1::int]) ''a'' [10, 20]) [100, 200, 300]
   \<noteq> Inr (insert_vc (insert_vc [] ''b'' (map2 (+) [1] [100]))
            ''a'' (map2 (+) [10, 20] [200, 300]))"
  by (simp add: exmap_Vector_def exmap_Vector_body_def insert_vc_def values_insert_def
      values_find_def sub_def vplus_def)

text \<open>
  C7, amended to what the code does: for a flat vector \<open>delta\<close> as long as the stored
  vectors together, \<open>exmap\<close> takes the keys in ascending order, which is the order of the
  entries of \<open>m\<close>, cuts \<open>delta\<close> into consecutive slices of the sizes of the stored vectors
  in that order, and returns the entries of \<open>m\<close>, each vector plus its slice entry by
  entry. The slices put together are \<open>delta\<close>, and each has the size of its vector.
\<close>

theorem exmap_Vector_slices_in_key_order:
  "invar m \<Longrightarrow> length delta = dim m \<Longrightarrow>
   exmap_Vector m delta
   = Inr (map2 (\<lambda>(j, vj) dj. (j, map2 (+) vj dj)) m
            (slices (map (\<lambda>(j, vj). length vj) m) delta))
   \<and> concat (slices (map (\<lambda>(j, vj). length vj) m) delta) = delta
   \<and> map length (slices (map (\<lambda>(j, vj). length vj) m) delta) = map (\<lambda>(j, vj). length vj) m"
  using exmap_Vector_loop [of "[]" m 0 delta]
  by (simp add: invar_def exmap_Vector_def dim_sum slices_concat slices_lengths)

text \<open>C7, amended, on the map with "a" holding two numbers and "b" holding one.\<close>

theorem exmap_Vector_slices_in_key_order_witness:
  "invar [(''a'', [10, 20]), (''b'', [1::int])]
   \<and> length [100, 200, 300::int] = dim [(''a'', [10, 20]), (''b'', [1::int])]
   \<and> exmap_Vector [(''a'', [10, 20]), (''b'', [1::int])] [100, 200, 300]
     = Inr [(''a'', [110, 220]), (''b'', [301])]"
proof -
  have h1: "invar [(''a'', [10, 20]), (''b'', [1::int])]"
    by (simp add: invar_def)
  have h2: "length [100, 200, 300::int] = dim [(''a'', [10, 20]), (''b'', [1::int])]"
    by (simp add: dim_def)
  show ?thesis
    using h1 h2 exmap_Vector_slices_in_key_order [OF h1 h2] by simp
qed

section \<open>The named-vector map: equals\<close>

lemma equals_loop_True:
  "equals_loop a b tol = Inr True \<Longrightarrow>
   \<forall>(j, v) \<in> set a. \<exists>w. get b j = Inr w \<and> equal_with_abs_tol w v tol"
  by (induction a b tol rule: equals_loop.induct)
     (auto simp: subscript_def split: sum.splits if_splits)

lemma equals_loop_append:
  "\<forall>(k, u) \<in> set pre. \<exists>w. get b k = Inr w \<and> equal_with_abs_tol w u tol \<Longrightarrow>
   equals_loop (pre @ rest) b tol = equals_loop rest b tol"
  by (induction pre) (auto simp: subscript_def)

text \<open>
  C8: when the two maps differ in their number of keys, \<open>equals\<close> returns false, whatever
  their entries are. When it returns true, the numbers of keys are the same and every key
  of \<open>a\<close> has in \<open>b\<close> a vector that matches the one in \<open>a\<close> entry by entry within \<open>tol\<close>.
\<close>

theorem equals_sizes_and_values:
  "(size_vc a \<noteq> size_vc b \<longrightarrow> equals a b tol = Inr False)
   \<and> (equals a b tol = Inr True \<longrightarrow>
        size_vc a = size_vc b
        \<and> (\<forall>(j, v) \<in> set a. \<exists>w. get b j = Inr w \<and> list_all2 (\<lambda>x y. \<bar>x - y\<bar> \<le> tol) w v))"
  using equals_loop_True [of a b tol]
  by (auto simp: equals_def size_vc_def equal_with_abs_tol_def split: if_splits)

text \<open>
  C8 on a map of one key against a map of two that agrees with it on that key, and on two
  maps of the same keys whose vectors are within 1 of each other.
\<close>

theorem equals_sizes_and_values_witness:
  "size_vc [(''a'', [1::int])] \<noteq> size_vc [(''a'', [1::int]), (''b'', [2])]
   \<and> equals [(''a'', [1::int])] [(''a'', [1]), (''b'', [2])] 0 = Inr False
   \<and> equals [(''a'', [1::int]), (''c'', [1])] [(''a'', [1]), (''c'', [2])] 1 = Inr True
   \<and> size_vc [(''a'', [1::int]), (''c'', [1])] = size_vc [(''a'', [1::int]), (''c'', [2])]
   \<and> (\<exists>w. get [(''a'', [1]), (''c'', [2])] ''a'' = Inr w
           \<and> list_all2 (\<lambda>x y. \<bar>x - y\<bar> \<le> 1) w [1::int])
   \<and> (\<exists>w. get [(''a'', [1]), (''c'', [2])] ''c'' = Inr w
           \<and> list_all2 (\<lambda>x y. \<bar>x - y\<bar> \<le> 1) w [1::int])"
proof -
  have h1: "size_vc [(''a'', [1::int])] \<noteq> size_vc [(''a'', [1::int]), (''b'', [2])]"
    by (simp add: size_vc_def)
  have h2: "equals [(''a'', [1::int]), (''c'', [1])] [(''a'', [1]), (''c'', [2])] 1 = Inr True"
    by (simp add: equals_def size_vc_def subscript_def get_def values_find_def
        equal_with_abs_tol_def)
  from h1 equals_sizes_and_values [of "[(''a'', [1::int])]" "[(''a'', [1]), (''b'', [2])]" 0]
  have r1: "equals [(''a'', [1::int])] [(''a'', [1]), (''b'', [2])] 0 = Inr False"
    by blast
  from h2 equals_sizes_and_values
    [of "[(''a'', [1::int]), (''c'', [1])]" "[(''a'', [1]), (''c'', [2])]" 1]
  have r2: "size_vc [(''a'', [1::int]), (''c'', [1])] = size_vc [(''a'', [1::int]), (''c'', [2])]"
    and r3: "\<forall>(j, v) \<in> set [(''a'', [1::int]), (''c'', [1])].
        \<exists>w. get [(''a'', [1]), (''c'', [2])] j = Inr w
             \<and> list_all2 (\<lambda>x y. \<bar>x - y\<bar> \<le> 1) w v"
    by blast+
  from r3 have r4: "\<exists>w. get [(''a'', [1]), (''c'', [2])] ''a'' = Inr w
        \<and> list_all2 (\<lambda>x y. \<bar>x - y\<bar> \<le> 1) w [1::int]"
    and r5: "\<exists>w. get [(''a'', [1]), (''c'', [2])] ''c'' = Inr w
        \<and> list_all2 (\<lambda>x y. \<bar>x - y\<bar> \<le> 1) w [1::int]"
    by simp_all
  show ?thesis using h1 r1 h2 r2 r4 r5 by blast
qed

text \<open>
  C10 as stated does not hold of the code: the loop returns false at the first key of \<open>a\<close>
  whose vectors differ, and looks no further. The maps below have two keys each; the key
  "c" of the first is not in the second; yet \<open>equals\<close> returns false, for the vectors
  under "a", which comes first, differ.
\<close>

theorem equals_absent_key_counterexample:
  "size_vc [(''a'', [1::int]), (''c'', [1])] = size_vc [(''a'', [2::int]), (''b'', [1])]
   \<and> contains [(''a'', [1::int]), (''c'', [1])] ''c''
   \<and> \<not> contains [(''a'', [2::int]), (''b'', [1])] ''c''
   \<and> equals [(''a'', [1::int]), (''c'', [1])] [(''a'', [2]), (''b'', [1])] 0 = Inr False"
  by (simp add: size_vc_def contains_def values_find_def equals_def subscript_def get_def
      equal_with_abs_tol_def)

text \<open>
  C10, amended to what the code does. Let \<open>a\<close> and \<open>b\<close> have the same number of keys, and
  let the entry \<open>(j, v)\<close> of \<open>a\<close> come after entries \<open>pre\<close> that \<open>b\<close> has, each within \<open>tol\<close>.
  If \<open>j\<close> is not in \<open>b\<close>, \<open>equals\<close> does not return: it fails with InvalidKey, after the
  dump of \<open>b\<close> and the key asked for. If \<open>j\<close> is in \<open>b\<close> with a vector that is not within
  \<open>tol\<close> of \<open>v\<close>, it returns false, whatever keys follow.
\<close>

theorem equals_first_absent_key:
  "size_vc a = size_vc b \<Longrightarrow> a = pre @ (j, v) # post \<Longrightarrow>
   \<forall>(k, u) \<in> set pre. \<exists>w. get b k = Inr w \<and> equal_with_abs_tol w u tol \<Longrightarrow>
   (\<not> contains b j \<longrightarrow>
      equals a b tol = Inl (InvalidKey, print b [] @ [Cout_asked_for_key j]))
   \<and> ((\<exists>w. get b j = Inr w \<and> \<not> equal_with_abs_tol w v tol) \<longrightarrow> equals a b tol = Inr False)"
  by (auto simp: equals_def size_vc_def equals_loop_append subscript_def get_def contains_def
      split: option.splits)

text \<open>
  C10, amended, on a map with the keys "a" and "c" against one without "c" that agrees on
  "a", and against one that has another vector under "c".
\<close>

theorem equals_first_absent_key_witness:
  "size_vc [(''a'', [1::int]), (''c'', [1])] = size_vc [(''a'', [1::int]), (''b'', [1])]
   \<and> [(''a'', [1::int]), (''c'', [1])] = [(''a'', [1])] @ (''c'', [1]) # []
   \<and> (\<exists>w. get [(''a'', [1::int]), (''b'', [1])] ''a'' = Inr w
           \<and> equal_with_abs_tol w [1] 0)
   \<and> \<not> contains [(''a'', [1::int]), (''b'', [1])] ''c''
   \<and> equals [(''a'', [1::int]), (''c'', [1])] [(''a'', [1]), (''b'', [1])] 0
     = Inl (InvalidKey, [Odprintf_VectorConfig [], Odprintf_size 2, Odprintf_key ''a'',
                         Print_Vector [1], Odprintf_key ''b'', Print_Vector [1],
                         Cout_asked_for_key ''c''])
   \<and> (\<exists>w. get [(''a'', [1::int]), (''c'', [5])] ''c'' = Inr w
           \<and> \<not> equal_with_abs_tol w [1] 0)
   \<and> equals [(''a'', [1::int]), (''c'', [1])] [(''a'', [1]), (''c'', [5])] 0 = Inr False"
proof -
  let ?a = "[(''a'', [1::int]), (''c'', [1])]"
  have h1: "size_vc ?a = size_vc [(''a'', [1::int]), (''b'', [1])]"
    and h1': "size_vc ?a = size_vc [(''a'', [1::int]), (''c'', [5])]"
    by (simp_all add: size_vc_def)
  have h2: "?a = [(''a'', [1])] @ (''c'', [1]) # []"
    by simp
  have h3: "\<forall>(k, u) \<in> set [(''a'', [1::int])].
        \<exists>w. get [(''a'', [1::int]), (''b'', [1])] k = Inr w \<and> equal_with_abs_tol w u 0"
    and h3': "\<forall>(k, u) \<in> set [(''a'', [1::int])].
        \<exists>w. get [(''a'', [1::int]), (''c'', [5])] k = Inr w \<and> equal_with_abs_tol w u 0"
    by (simp_all add: get_def values_find_def equal_with_abs_tol_def)
  have h4: "\<not> contains [(''a'', [1::int]), (''b'', [1])] ''c''"
    by (simp add: contains_def values_find_def)
  have h5: "\<exists>w. get [(''a'', [1::int]), (''c'', [5])] ''c'' = Inr w
        \<and> \<not> equal_with_abs_tol w [1] 0"
    by (simp add: get_def values_find_def equal_with_abs_tol_def)
  have r1: "equals ?a [(''a'', [1]), (''b'', [1])] 0
     = Inl (InvalidKey, [Odprintf_VectorConfig [], Odprintf_size 2, Odprintf_key ''a'',
                         Print_Vector [1], Odprintf_key ''b'', Print_Vector [1],
                         Cout_asked_for_key ''c''])"
    using h4 equals_first_absent_key [OF h1 h2 h3] by (simp add: print_def)
  have r2: "equals ?a [(''a'', [1]), (''c'', [5])] 0 = Inr False"
    using h5 equals_first_absent_key [OF h1' h2 h3'] by blast
  from h3 have h3c: "\<exists>w. get [(''a'', [1::int]), (''b'', [1])] ''a'' = Inr w
        \<and> equal_with_abs_tol w [1] 0"
    by simp
  show ?thesis using h1 h2 h3c h4 h5 r1 r2 by blast
qed

end
